theory Spec2Isabelle
  imports Main "HOL-Library.Char_ord" "HOL-Library.List_Lexorder" "HOL-Library.AList"
begin

section \<open>Values, objects and the host platform\<close>

text \<open>
  The hook \<open>useFormPersist\<close> (src/src/useFormPersist.ts) handles JavaScript values: the
  watched form values, the result of \<open>JSON.parse\<close> and the snapshot kept in
  \<open>lastValuesRef\<close>. An object is the list of its own enumerable properties in property
  order; a JavaScript object never holds a key twice. Numbers are restricted to integers
  (\<open>Date.now()\<close> and the timeout are milliseconds).
\<close>

datatype jsval =
    JUndefined
  | JNull
  | JBool bool
  | JNum int
  | JStr string
  | JArr "jsval list"
  | JObj "(string \<times> jsval) list"

type_synonym object = "(string \<times> jsval) list"

text \<open>Property read \<open>obj[key]\<close>: a missing property reads as \<open>undefined\<close>.\<close>

definition getProp :: "object \<Rightarrow> string \<Rightarrow> jsval" where
  "getProp obj key = (case map_of obj key of Some v \<Rightarrow> v | None \<Rightarrow> JUndefined)"

text \<open>\<open>Object.keys(obj)\<close>.\<close>

definition Object_keys :: "object \<Rightarrow> string list" where
  "Object_keys obj = map fst obj"

datatype error =
    SyntaxError
  | TypeError
  | StorageError string

datatype outcome = Returned | Threw error

text \<open>
  The \<open>Storage\<close> interface of src/src/types.ts (\<open>storage?: Storage\<close>), reduced to the three
  methods the hook calls. An implementation is supplied by the caller, so each method is
  an arbitrary function of the adapter's own state \<open>'st\<close>: it may raise (\<open>Inl\<close>), and
  \<open>getItem\<close> returns \<open>null\<close> (\<open>None\<close>) or a string.
\<close>

record 'st Storage =
  getItem :: "string \<Rightarrow> 'st \<Rightarrow> (error + string option) \<times> 'st"
  setItem :: "string \<Rightarrow> string \<Rightarrow> 'st \<Rightarrow> (error + unit) \<times> 'st"
  removeItem :: "string \<Rightarrow> 'st \<Rightarrow> (error + unit) \<times> 'st"

text \<open>
  What the hook takes from the JavaScript host and does not define itself:
  \<open>JSON.parse\<close> (\<open>None\<close>: it throws a SyntaxError), \<open>JSON.stringify\<close> (\<open>None\<close>: it
  returns \<open>undefined\<close>), the numeric coercion of strings, arrays and objects
  (\<open>None\<close>: NaN) and \<open>window.localStorage\<close>. Every theorem below holds for any host.
\<close>

record 'st platform =
  JSON_parse :: "string \<Rightarrow> jsval option"
  JSON_stringify :: "jsval \<Rightarrow> string option"
  ToNumber_host :: "jsval \<Rightarrow> int option"
  window_localStorage :: "'st Storage"

text \<open>The configuration \<open>FormPersistConfig\<close> with the defaults of the parameter list
  (lines 7-19). A callback is recorded by whether it was supplied.\<close>

record 'st config =
  storage :: "'st Storage option"
  exclude :: "string list"
  onDataRestored :: bool
  validate :: bool
  dirty :: bool
  touch :: bool
  onTimeout :: bool
  timeout :: "int option"
  debounceDelay :: int

definition defaults :: "'st config" where
  "defaults = \<lparr> storage = None, exclude = [], onDataRestored = False, validate = False,
      dirty = False, touch = False, onTimeout = False, timeout = None, debounceDelay = 0 \<rparr>"

text \<open>The calls the hook makes on its collaborators, in the order they happen.\<close>

datatype event =
    GetItem string
  | SetItem string string
  | RemoveItem string
  | SetValue string jsval bool bool bool
  | OnTimeout
  | OnDataRestored object

text \<open>
  The refs of one binding (lines 25-29), the state of the storage adapter, the pending
  timers of the host (timer id and the watched values its callback closes over) and the
  trace of calls made so far. Timer ids start at 1, as in a browser.
\<close>

record 'st world =
  debounceTimeoutRef :: "nat option"
  isRestoringRef :: bool
  isSavingRef :: bool
  lastValuesRef :: object
  initializedRef :: bool
  store :: 'st
  timers :: "nat \<rightharpoonup> object"
  nextTimer :: nat
  trace :: "event list"

definition mount :: "'st \<Rightarrow> 'st world" where
  "mount st = \<lparr> debounceTimeoutRef = None, isRestoringRef = False, isSavingRef = False,
      lastValuesRef = [], initializedRef = False, store = st, timers = Map.empty, nextTimer = 1,
      trace = [] \<rparr>"

section \<open>The hook\<close>

definition getStorageKey :: "string \<Rightarrow> string" where
  "getStorageKey name = ''react-hook-form-persist:'' @ name"

definition getStorage :: "'st platform \<Rightarrow> 'st config \<Rightarrow> 'st Storage" where
  "getStorage P cfg = (case storage cfg of Some s \<Rightarrow> s | None \<Rightarrow> window_localStorage P)"

definition outcome_of :: "error + 'a \<Rightarrow> outcome" where
  "outcome_of r = (case r of Inl e \<Rightarrow> Threw e | Inr _ \<Rightarrow> Returned)"

definition clearStorage :: "'st platform \<Rightarrow> string \<Rightarrow> 'st config \<Rightarrow> 'st world \<Rightarrow> outcome \<times> 'st world" where
  "clearStorage P name cfg w =
     (let key = getStorageKey name;
          (r, st') = removeItem (getStorage P cfg) key (store w)
      in (outcome_of r, w\<lparr>store := st', trace := trace w @ [RemoveItem key]\<rparr>))"

text \<open>\<open>valuesHaveChanged\<close> (lines 46-66). \<open>sort\<close> is the lexicographic order on strings.\<close>

definition valuesHaveChanged :: "'st platform \<Rightarrow> 'st world \<Rightarrow> object \<Rightarrow> bool" where
  "valuesHaveChanged P w newValues =
     (let lastValues = lastValuesRef w;
          newKeys = sort (Object_keys newValues);
          lastKeys = sort (Object_keys lastValues)
      in if length newKeys \<noteq> length lastKeys \<or>
            \<not> list_all (\<lambda>(key, i). key = lastKeys ! i) (zip newKeys [0..<length newKeys])
         then True
         else list_ex (\<lambda>key. JSON_stringify P (getProp newValues key)
                              \<noteq> JSON_stringify P (getProp lastValues key)) newKeys)"

text \<open>
  \<open>saveToStorage\<close> (lines 118-144). The copy of the watched values without the excluded
  fields (lines 123-133) is \<open>candidate\<close>; \<open>values._savedAt = Date.now()\<close> replaces the
  property where it stands or appends it. \<open>JSON.stringify\<close> of an object is a string; a host
  that returned \<open>undefined\<close> would have it stored as the text \<open>undefined\<close>. When
  \<open>setItem\<close> raises, the statements after it are not run.
\<close>

definition candidate :: "'st config \<Rightarrow> object \<Rightarrow> object" where
  "candidate cfg watchedValues =
     (if length (exclude cfg) > 0
      then filter (\<lambda>(key, val). key \<notin> set (exclude cfg)) watchedValues
      else watchedValues)"

definition stamped :: "'st config \<Rightarrow> int \<Rightarrow> object \<Rightarrow> object" where
  "stamped cfg now values =
     (if timeout cfg \<noteq> None then AList.update ''_savedAt'' (JNum now) values else values)"

definition serialized :: "'st platform \<Rightarrow> object \<Rightarrow> string" where
  "serialized P values =
     (case JSON_stringify P (JObj values) of Some text \<Rightarrow> text | None \<Rightarrow> ''undefined'')"

definition saveToStorage ::
  "'st platform \<Rightarrow> string \<Rightarrow> 'st config \<Rightarrow> int \<Rightarrow> object \<Rightarrow> 'st world \<Rightarrow> outcome \<times> 'st world" where
  "saveToStorage P name cfg now watchedValues w =
     (if isSavingRef w then (Returned, w)
      else
        let w1 = w\<lparr>isSavingRef := True\<rparr>;
            values = candidate cfg watchedValues
        in if length values \<noteq> 0 \<and> valuesHaveChanged P w1 values
           then
             let values' = stamped cfg now values;
                 key = getStorageKey name;
                 text = serialized P values';
                 (r, st') = setItem (getStorage P cfg) key text (store w1);
                 w2 = w1\<lparr>store := st', trace := trace w1 @ [SetItem key text]\<rparr>
             in (case r of
                   Inl e \<Rightarrow> (Threw e, w2)
                 | Inr _ \<Rightarrow> (Returned, w2\<lparr>lastValuesRef := values', isSavingRef := False\<rparr>))
           else (Returned, w1\<lparr>isSavingRef := False\<rparr>))"

text \<open>
  The second effect (lines 117-185): cancel the pending timer, then either schedule the
  save or run it at once; the filter on the three flags is read when the save would run.
  \<open>timerFires\<close> is the callback of line 151 run by the host for a pending timer, and
  \<open>saveEffectCleanup\<close> the function returned at line 172.
\<close>

definition clearTimeout :: "nat \<Rightarrow> 'st world \<Rightarrow> 'st world" where
  "clearTimeout tid w = w\<lparr>timers := (timers w)(tid := None)\<rparr>"

definition cancelPending :: "'st world \<Rightarrow> 'st world" where
  "cancelPending w =
     (case debounceTimeoutRef w of
        Some tid \<Rightarrow> if tid \<noteq> 0 then clearTimeout tid w else w
      | None \<Rightarrow> w)"

definition shouldSkipSave :: "'st world \<Rightarrow> bool" where
  "shouldSkipSave w = (isRestoringRef w \<or> \<not> initializedRef w \<or> isSavingRef w)"

definition saveEffect ::
  "'st platform \<Rightarrow> string \<Rightarrow> 'st config \<Rightarrow> int \<Rightarrow> object \<Rightarrow> 'st world \<Rightarrow> outcome \<times> 'st world" where
  "saveEffect P name cfg now watchedValues w =
     (let w1 = cancelPending w
      in if debounceDelay cfg > 0
         then (Returned, w1\<lparr>debounceTimeoutRef := Some (nextTimer w1),
                              timers := (timers w1)(nextTimer w1 \<mapsto> watchedValues),
                              nextTimer := nextTimer w1 + 1\<rparr>)
         else if \<not> shouldSkipSave w1
              then saveToStorage P name cfg now watchedValues w1
              else (Returned, w1))"

definition saveEffectCleanup :: "'st world \<Rightarrow> 'st world" where
  "saveEffectCleanup w = cancelPending w"

definition timerFires ::
  "'st platform \<Rightarrow> string \<Rightarrow> 'st config \<Rightarrow> int \<Rightarrow> nat \<Rightarrow> 'st world \<Rightarrow> outcome \<times> 'st world" where
  "timerFires P name cfg now tid w =
     (case timers w tid of
        None \<Rightarrow> (Returned, w)
      | Some watchedValues \<Rightarrow>
          let w1 = clearTimeout tid w
          in if \<not> shouldSkipSave w1
             then saveToStorage P name cfg now watchedValues w1
             else (Returned, w1))"

text \<open>
  The first effect (lines 68-115). The destructuring of line 75 raises a TypeError on
  \<open>null\<close>; a number or boolean has no own property, a string or an array has its indices.
  In \<open>currTimestamp - _savedAt\<close> the timestamp is coerced to a number, \<open>null\<close> to 0, and a
  comparison with NaN is false. The test of line 74 is false for \<open>null\<close> and for the
  empty string. An exception leaves the effect at once, so the two assignments of lines
  101-102 are not run.
\<close>

fun decimal :: "nat \<Rightarrow> string" where
  "decimal n = (if n < 10 then [''0123456789'' ! n]
                else decimal (n div 10) @ [''0123456789'' ! (n mod 10)])"

definition indexed :: "jsval list \<Rightarrow> object" where
  "indexed xs = zip (map decimal [0..<length xs]) xs"

definition withDefaultNull :: "jsval \<Rightarrow> jsval" where
  "withDefaultNull v = (case v of JUndefined \<Rightarrow> JNull | _ \<Rightarrow> v)"

fun destructure :: "jsval \<Rightarrow> error + (jsval \<times> object)" where
  "destructure JUndefined = Inl TypeError"
| "destructure JNull = Inl TypeError"
| "destructure (JBool b) = Inr (JNull, [])"
| "destructure (JNum n) = Inr (JNull, [])"
| "destructure (JStr s) = Inr (JNull, indexed (map (\<lambda>c. JStr [c]) s))"
| "destructure (JArr xs) = Inr (JNull, indexed xs)"
| "destructure (JObj obj) =
     Inr (withDefaultNull (getProp obj ''_savedAt''),
          filter (\<lambda>(key, val). key \<noteq> ''_savedAt'') obj)"

definition ToNumber :: "'st platform \<Rightarrow> jsval \<Rightarrow> int option" where
  "ToNumber P v =
     (case v of
        JUndefined \<Rightarrow> None
      | JNull \<Rightarrow> Some 0
      | JBool b \<Rightarrow> Some (if b then 1 else 0)
      | JNum n \<Rightarrow> Some n
      | _ \<Rightarrow> ToNumber_host P v)"

definition isExpired :: "'st platform \<Rightarrow> 'st config \<Rightarrow> int \<Rightarrow> jsval \<Rightarrow> bool" where
  "isExpired P cfg currTimestamp savedAt =
     (case timeout cfg of
        None \<Rightarrow> False
      | Some t \<Rightarrow>
          t \<noteq> 0 \<and> (case ToNumber P savedAt of
                     None \<Rightarrow> False
                   | Some s \<Rightarrow> currTimestamp - s > t))"

definition fieldSets :: "'st config \<Rightarrow> object \<Rightarrow> event list" where
  "fieldSets cfg values =
     map (\<lambda>key. SetValue key (getProp values key) (validate cfg) (dirty cfg) (touch cfg))
         (filter (\<lambda>key. key \<notin> set (exclude cfg)) (Object_keys values))"

definition restoreRecord ::
  "'st platform \<Rightarrow> string \<Rightarrow> 'st config \<Rightarrow> int \<Rightarrow> string \<Rightarrow> 'st world \<Rightarrow> outcome \<times> 'st world" where
  "restoreRecord P name cfg currTimestamp storageRawValues w =
     (case JSON_parse P storageRawValues of
        None \<Rightarrow> (Threw SyntaxError, w)
      | Some parsed \<Rightarrow>
          (case destructure parsed of
             Inl e \<Rightarrow> (Threw e, w)
           | Inr (savedAt, values) \<Rightarrow>
               if isExpired P cfg currTimestamp savedAt
               then clearStorage P name cfg
                      (w\<lparr>trace := trace w @ (if onTimeout cfg then [OnTimeout] else [])\<rparr>)
               else (Returned,
                     w\<lparr>lastValuesRef := values,
                       trace := trace w @ fieldSets cfg values
                                @ (if onDataRestored cfg then [OnDataRestored values] else [])\<rparr>)))"

definition restoreEffect ::
  "'st platform \<Rightarrow> string \<Rightarrow> 'st config \<Rightarrow> int \<Rightarrow> 'st world \<Rightarrow> outcome \<times> 'st world" where
  "restoreEffect P name cfg now w =
     (if initializedRef w \<or> isRestoringRef w then (Returned, w)
      else
        let w1 = w\<lparr>isRestoringRef := True\<rparr>;
            key = getStorageKey name;
            (r, st') = getItem (getStorage P cfg) key (store w1);
            w2 = w1\<lparr>store := st', trace := trace w1 @ [GetItem key]\<rparr>
        in (case r of
              Inl e \<Rightarrow> (Threw e, w2)
            | Inr storageRawValues \<Rightarrow>
                (case (case storageRawValues of
                         Some raw \<Rightarrow>
                           if raw \<noteq> [] then restoreRecord P name cfg now raw w2
                           else (Returned, w2)
                       | None \<Rightarrow> (Returned, w2)) of
                   (Threw e, w3) \<Rightarrow> (Threw e, w3)
                 | (Returned, w3) \<Rightarrow>
                     (Returned, w3\<lparr>isRestoringRef := False, initializedRef := True\<rparr>))))"

section \<open>Scenarios and test doubles\<close>

text \<open>The writes in a trace: the calls of \<open>setItem\<close>.\<close>

definition writes :: "event list \<Rightarrow> event list" where
  "writes tr = filter (\<lambda>e. case e of SetItem key text \<Rightarrow> True | _ \<Rightarrow> False) tr"

text \<open>
  One change of the watched values, followed to its end: the effect runs, and when the
  save is debounced the quiet period passes and the host runs the scheduled callback.
\<close>

definition changeSettled ::
  "'st platform \<Rightarrow> string \<Rightarrow> 'st config \<Rightarrow> int \<Rightarrow> object \<Rightarrow> 'st world \<Rightarrow> outcome \<times> 'st world" where
  "changeSettled P name cfg now watchedValues w =
     (case saveEffect P name cfg now watchedValues w of
        (Threw e, w1) \<Rightarrow> (Threw e, w1)
      | (Returned, w1) \<Rightarrow>
          if debounceDelay cfg > 0
          then (case debounceTimeoutRef w1 of
                  Some tid \<Rightarrow> timerFires P name cfg (now + debounceDelay cfg) tid w1
                | None \<Rightarrow> (Returned, w1))
          else (Returned, w1))"

text \<open>
  Storage adapters for the examples: one backed by a table, as \<open>localStorage\<close> is, and
  one whose \<open>setItem\<close> raises, as a full \<open>localStorage\<close> does.
\<close>

definition memoryStorage :: "(string \<times> string) list Storage" where
  "memoryStorage = \<lparr> getItem = (\<lambda>key st. (Inr (map_of st key), st)),
      setItem = (\<lambda>key text st. (Inr (), AList.update key text st)),
      removeItem = (\<lambda>key st. (Inr (), AList.delete key st)) \<rparr>"


text \<open>
  The data of the examples: the form of the repository's tests, and a host whose JSON is
  given on the texts the examples use (any other text does not parse).
\<close>

definition john :: object where
  "john = [(''name'', JStr ''John''), (''email'', JStr ''john@example.com'')]"

definition johnText :: string where
  \<open>johnText = ''{"name":"John","email":"john@example.com"}''\<close>

definition johnSavedAt :: "int \<Rightarrow> object" where
  "johnSavedAt t = john @ [(''_savedAt'', JNum t)]"

definition johnSavedAt3000 :: string where
  \<open>johnSavedAt3000 = ''{"name":"John","email":"john@example.com","_savedAt":3000}''\<close>

definition johnSavedAt4000 :: string where
  \<open>johnSavedAt4000 = ''{"name":"John","email":"john@example.com","_savedAt":4000}''\<close>

definition johnSecret :: object where
  "johnSecret = john @ [(''password'', JStr ''secret'')]"

definition johnSecretText :: string where
  \<open>johnSecretText = ''{"name":"John","email":"john@example.com","password":"secret"}''\<close>

definition onlySavedAt :: string where
  \<open>onlySavedAt = ''{"_savedAt":5}''\<close>

definition testHost :: "(string \<times> string) list platform" where
  \<open>testHost = \<lparr>
     JSON_parse = map_of
       [(johnText, JObj john),
        (johnSecretText, JObj johnSecret),
        (johnSavedAt3000, JObj (johnSavedAt 3000)),
        (johnSavedAt4000, JObj (johnSavedAt 4000)),
        (onlySavedAt, JObj [(''_savedAt'', JNum 5)])],
     JSON_stringify = map_of
       [(JObj john, johnText),
        (JObj johnSecret, johnSecretText),
        (JObj (johnSavedAt 3000), johnSavedAt3000),
        (JObj (johnSavedAt 4000), johnSavedAt4000),
        (JObj [(''_savedAt'', JNum 5)], onlySavedAt),
        (JStr ''John'', ''"John"''),
        (JStr ''john@example.com'', ''"john@example.com"''),
        (JNum 5, ''5''), (JNum 3000, ''3000''), (JNum 4000, ''4000'')],
     ToNumber_host = (\<lambda>v. None),
     window_localStorage = memoryStorage \<rparr>\<close>

text \<open>A binding whose restore has completed and found nothing.\<close>

definition idle :: "'st \<Rightarrow> 'st world" where
  "idle st = (mount st)\<lparr>initializedRef := True\<rparr>"

definition passwordOnly :: "(string \<times> string) list config" where
  "passwordOnly = defaults\<lparr>exclude := [''password''], timeout := Some 1000, debounceDelay := 500\<rparr>"

definition excludePassword :: "(string \<times> string) list config" where
  "excludePassword = defaults\<lparr>exclude := [''password''], onDataRestored := True\<rparr>"

definition expireAfter :: "int \<Rightarrow> (string \<times> string) list config" where
  "expireAfter t = defaults\<lparr>timeout := Some t, onTimeout := True\<rparr>"

definition testKey :: string where
  "testKey = ''react-hook-form-persist:test-form-v1''"

definition truncated :: string where
  \<open>truncated = ''{"name":"Jo''\<close>


section \<open>The change detector and the save\<close>

lemma every_index_same: "list_all (\<lambda>(key, i). key = xs ! i) (zip xs [0..<length xs])"
  by (auto simp: list_all_iff set_zip)

lemma every_index_iff:
  assumes "length xs = length ys"
  shows "list_all (\<lambda>(key, i). key = ys ! i) (zip xs [0..<length xs]) \<longleftrightarrow> xs = ys"
proof
  assume every: "list_all (\<lambda>(key, i). key = ys ! i) (zip xs [0..<length xs])"
  show "xs = ys"
  proof (rule nth_equalityI)
    show "length xs = length ys" by (rule assms)
  next
    fix i assume "i < length xs"
    then have "(xs ! i, i) \<in> set (zip xs [0..<length xs])"
      by (force simp: set_zip)
    with every show "xs ! i = ys ! i"
      by (auto simp: list_all_iff)
  qed
next
  assume "xs = ys"
  then show "list_all (\<lambda>(key, i). key = ys ! i) (zip xs [0..<length xs])"
    using every_index_same [of ys] by simp
qed

lemma valuesHaveChanged_iff:
  "valuesHaveChanged P w newValues \<longleftrightarrow>
     sort (Object_keys newValues) \<noteq> sort (Object_keys (lastValuesRef w)) \<or>
     (\<exists>key \<in> set (Object_keys newValues).
        JSON_stringify P (getProp newValues key) \<noteq> JSON_stringify P (getProp (lastValuesRef w) key))"
proof (cases "length (sort (Object_keys newValues)) = length (sort (Object_keys (lastValuesRef w)))")
  case True
  have "valuesHaveChanged P w newValues \<longleftrightarrow>
      sort (Object_keys newValues) \<noteq> sort (Object_keys (lastValuesRef w)) \<or>
      list_ex (\<lambda>key. JSON_stringify P (getProp newValues key)
                     \<noteq> JSON_stringify P (getProp (lastValuesRef w) key))
        (sort (Object_keys newValues))"
    unfolding valuesHaveChanged_def Let_def every_index_iff [OF True]
    using True by auto
  then show ?thesis
    by (simp add: list_ex_iff)
next
  case False
  then have "sort (Object_keys newValues) \<noteq> sort (Object_keys (lastValuesRef w))"
    by (rule contrapos_nn) simp
  with False show ?thesis
    unfolding valuesHaveChanged_def Let_def by simp
qed

lemma valuesHaveChanged_same: "lastValuesRef w = values \<Longrightarrow> \<not> valuesHaveChanged P w values"
  by (simp add: valuesHaveChanged_iff)

lemma valuesHaveChanged_frame:
  "lastValuesRef w' = lastValuesRef w \<Longrightarrow> valuesHaveChanged P w' values = valuesHaveChanged P w values"
  by (simp add: valuesHaveChanged_def)

lemma saveToStorage_busy:
  "isSavingRef w \<Longrightarrow> saveToStorage P name cfg now watched w = (Returned, w)"
  by (simp add: saveToStorage_def)

lemma saveToStorage_quiet:
  assumes "candidate cfg watched = [] \<or> \<not> valuesHaveChanged P w (candidate cfg watched)"
  shows "saveToStorage P name cfg now watched w = (Returned, w)"
proof (cases "isSavingRef w")
  case True
  then show ?thesis by (rule saveToStorage_busy)
next
  case False
  have "valuesHaveChanged P (w\<lparr>isSavingRef := True\<rparr>) (candidate cfg watched)
        = valuesHaveChanged P w (candidate cfg watched)"
    by (rule valuesHaveChanged_frame) simp
  with assms False show ?thesis
    by (auto simp: saveToStorage_def Let_def)
qed

lemma saveToStorage_write:
  assumes "\<not> isSavingRef w" and "candidate cfg watched \<noteq> []"
    and "valuesHaveChanged P w (candidate cfg watched)"
    and "setItem (getStorage P cfg) (getStorageKey name)
           (serialized P (stamped cfg now (candidate cfg watched))) (store w) = (r, st')"
  shows "saveToStorage P name cfg now watched w =
     (case r of
        Inl e \<Rightarrow> (Threw e, w\<lparr>isSavingRef := True, store := st',
                   trace := trace w @ [SetItem (getStorageKey name)
                      (serialized P (stamped cfg now (candidate cfg watched)))]\<rparr>)
      | Inr u \<Rightarrow> (Returned, w\<lparr>store := st',
                   lastValuesRef := stamped cfg now (candidate cfg watched),
                   trace := trace w @ [SetItem (getStorageKey name)
                      (serialized P (stamped cfg now (candidate cfg watched)))]\<rparr>))"
proof -
  have "valuesHaveChanged P (w\<lparr>isSavingRef := True\<rparr>) (candidate cfg watched)
        = valuesHaveChanged P w (candidate cfg watched)"
    by (rule valuesHaveChanged_frame) simp
  with assms show ?thesis
    by (auto simp: saveToStorage_def Let_def split: sum.splits)
qed

lemma cancelPending_frame [simp]:
  "trace (cancelPending w) = trace w"
  "store (cancelPending w) = store w"
  "lastValuesRef (cancelPending w) = lastValuesRef w"
  "isSavingRef (cancelPending w) = isSavingRef w"
  "isRestoringRef (cancelPending w) = isRestoringRef w"
  "initializedRef (cancelPending w) = initializedRef w"
  "nextTimer (cancelPending w) = nextTimer w"
  "debounceTimeoutRef (cancelPending w) = debounceTimeoutRef w"
  by (simp_all add: cancelPending_def clearTimeout_def split: option.splits)

lemma shouldSkipSave_cancelPending [simp]:
  "shouldSkipSave (cancelPending w) = shouldSkipSave w"
  by (simp add: shouldSkipSave_def)

lemma timerFires_pending:
  "timers w tid = Some watched \<Longrightarrow>
   timerFires P name cfg now tid w =
     (if \<not> shouldSkipSave (clearTimeout tid w)
      then saveToStorage P name cfg now watched (clearTimeout tid w)
      else (Returned, clearTimeout tid w))"
  by (simp add: timerFires_def Let_def)

text \<open>A change whose save is dropped or has nothing to write leaves no mark but on the timers.\<close>

lemma changeSettled_quiet:
  assumes "candidate cfg watched = [] \<or> \<not> valuesHaveChanged P w (candidate cfg watched)"
  shows "fst (changeSettled P name cfg now watched w) = Returned
       \<and> trace (snd (changeSettled P name cfg now watched w)) = trace w
       \<and> store (snd (changeSettled P name cfg now watched w)) = store w
       \<and> lastValuesRef (snd (changeSettled P name cfg now watched w)) = lastValuesRef w
       \<and> isSavingRef (snd (changeSettled P name cfg now watched w)) = isSavingRef w
       \<and> isRestoringRef (snd (changeSettled P name cfg now watched w)) = isRestoringRef w
       \<and> initializedRef (snd (changeSettled P name cfg now watched w)) = initializedRef w"
proof (cases "debounceDelay cfg > 0")
  case True
  define w1 where "w1 = (cancelPending w)\<lparr>debounceTimeoutRef := Some (nextTimer (cancelPending w)),
      timers := (timers (cancelPending w))(nextTimer (cancelPending w) \<mapsto> watched),
      nextTimer := nextTimer (cancelPending w) + 1\<rparr>"
  define w2 where "w2 = clearTimeout (nextTimer w) w1"
  have eff: "saveEffect P name cfg now watched w = (Returned, w1)"
    using True by (simp add: saveEffect_def Let_def w1_def)
  have last: "lastValuesRef w2 = lastValuesRef w"
    by (simp add: w2_def w1_def clearTimeout_def)
  have "candidate cfg watched = [] \<or> \<not> valuesHaveChanged P w2 (candidate cfg watched)"
    using assms valuesHaveChanged_frame [OF last] by simp
  then have save: "saveToStorage P name cfg (now + debounceDelay cfg) watched w2 = (Returned, w2)"
    by (rule saveToStorage_quiet)
  have pending: "timers w1 (nextTimer w) = Some watched"
    by (simp add: w1_def)
  have fire: "timerFires P name cfg (now + debounceDelay cfg) (nextTimer w) w1 = (Returned, w2)"
    unfolding timerFires_pending [OF pending] w2_def [symmetric] using save by simp
  have ref: "debounceTimeoutRef w1 = Some (nextTimer w)"
    by (simp add: w1_def)
  have "changeSettled P name cfg now watched w = (Returned, w2)"
    unfolding changeSettled_def eff using True ref fire by simp
  then show ?thesis
    by (simp add: w2_def w1_def clearTimeout_def)
next
  case False
  have last: "lastValuesRef (cancelPending w) = lastValuesRef w" by simp
  have "candidate cfg watched = [] \<or> \<not> valuesHaveChanged P (cancelPending w) (candidate cfg watched)"
    using assms valuesHaveChanged_frame [OF last] by simp
  then have "saveToStorage P name cfg now watched (cancelPending w) = (Returned, cancelPending w)"
    by (rule saveToStorage_quiet)
  then have "changeSettled P name cfg now watched w = (Returned, cancelPending w)"
    using False by (simp add: changeSettled_def saveEffect_def Let_def)
  then show ?thesis by simp
qed

text \<open>
  C5: for every configuration, a change whose candidate snapshot (the watched values
  without the excluded fields) has no field writes nothing to the storage adapter and
  leaves \<open>lastValuesRef\<close> as it was, whether the save runs at once or after the debounce
  delay.
\<close>

theorem empty_candidate_is_never_written:
  assumes "candidate cfg watchedValues = []"
  shows "saveToStorage P name cfg now watchedValues w = (Returned, w)
       \<and> trace (snd (changeSettled P name cfg now watchedValues w)) = trace w
       \<and> store (snd (changeSettled P name cfg now watchedValues w)) = store w
       \<and> lastValuesRef (snd (changeSettled P name cfg now watchedValues w)) = lastValuesRef w"
  using assms saveToStorage_quiet [of cfg watchedValues P w name now]
    changeSettled_quiet [of cfg watchedValues P w name now]
  by simp

theorem empty_candidate_is_never_written_witness:
  "candidate passwordOnly [(''password'', JStr ''secret'')] = []
   \<and> trace (snd (changeSettled testHost ''test-form-v1'' passwordOnly 3000
        [(''password'', JStr ''secret'')] (idle []))) = []"
  using empty_candidate_is_never_written
    [of passwordOnly "[(''password'', JStr ''secret'')]" testHost "''test-form-v1''" 3000 "idle []"]
  by (simp add: candidate_def passwordOnly_def defaults_def idle_def mount_def)

section \<open>Clear\<close>

lemma clearStorage_frame:
  "trace (snd (clearStorage P name cfg w)) = trace w @ [RemoveItem (getStorageKey name)]"
  "lastValuesRef (snd (clearStorage P name cfg w)) = lastValuesRef w"
  "initializedRef (snd (clearStorage P name cfg w)) = initializedRef w"
  "isRestoringRef (snd (clearStorage P name cfg w)) = isRestoringRef w"
  "isSavingRef (snd (clearStorage P name cfg w)) = isSavingRef w"
  by (simp_all add: clearStorage_def Let_def split: prod.splits)

text \<open>
  \<open>clear()\<close> in every state: it calls the adapter's \<open>removeItem\<close> once, at the key
  \<open>react-hook-form-persist:<name>\<close>; the store becomes what that call leaves, an exception
  of the adapter is the outcome, and the refs of the binding are as they were.
\<close>

lemma clearStorage_result:
  "clearStorage P name cfg w =
     (outcome_of (fst (removeItem (getStorage P cfg) (''react-hook-form-persist:'' @ name) (store w))),
      w\<lparr>store := snd (removeItem (getStorage P cfg) (''react-hook-form-persist:'' @ name) (store w)),
         trace := trace w @ [RemoveItem (''react-hook-form-persist:'' @ name)]\<rparr>)"
  by (simp add: clearStorage_def getStorageKey_def Let_def split: prod.splits)

section \<open>Restore\<close>

text \<open>
  C9: when \<open>getItem\<close> returns the empty string for the storage key, the restore does what
  it does for an absent record: it makes no call after the \<open>getItem\<close> (no field is set,
  no callback runs), it returns, and the binding is initialized and no longer restoring.
  The result does not depend on \<open>JSON.parse\<close>, which is not called.
\<close>

theorem empty_string_is_absent_record:
  assumes "\<not> initializedRef w" and "\<not> isRestoringRef w"
    and "getItem (getStorage P cfg) (getStorageKey name) (store w) = (Inr raw, st')"
    and "raw = Some [] \<or> raw = None"
  shows "restoreEffect P name cfg now w =
           (Returned, w\<lparr>initializedRef := True, store := st',
                        trace := trace w @ [GetItem (getStorageKey name)]\<rparr>)
       \<and> restoreEffect (P\<lparr>JSON_parse := parse\<rparr>) name cfg now w = restoreEffect P name cfg now w"
proof -
  have "getStorage (P\<lparr>JSON_parse := parse\<rparr>) cfg = getStorage P cfg"
    by (simp add: getStorage_def split: option.splits)
  with assms show ?thesis
    by (auto simp: restoreEffect_def Let_def)
qed

theorem empty_string_is_absent_record_witness:
  "\<not> initializedRef (mount [(testKey, [])]) \<and> \<not> isRestoringRef (mount [(testKey, [])])
   \<and> getItem (getStorage testHost defaults) (getStorageKey ''test-form-v1'') (store (mount [(testKey, [])]))
       = (Inr (Some []), [(testKey, [])])
   \<and> restoreEffect testHost ''test-form-v1'' defaults 3000 (mount [(testKey, [])])
       = (Returned, (mount [(testKey, [])])\<lparr>initializedRef := True, trace := [GetItem testKey]\<rparr>)"
  using empty_string_is_absent_record
    [of "mount [(testKey, [])]" testHost defaults "''test-form-v1''" "Some []" "[(testKey, [])]" 3000]
  by (simp add: mount_def testKey_def getStorageKey_def getStorage_def defaults_def testHost_def memoryStorage_def)

lemma restoreEffect_found:
  assumes "\<not> initializedRef w" and "\<not> isRestoringRef w"
    and "getItem (getStorage P cfg) (getStorageKey name) (store w) = (Inr (Some raw), st')"
    and "raw \<noteq> []"
  shows "restoreEffect P name cfg now w =
     (case restoreRecord P name cfg now raw
             (w\<lparr>isRestoringRef := True, store := st',
                 trace := trace w @ [GetItem (getStorageKey name)]\<rparr>) of
        (Threw e, w3) \<Rightarrow> (Threw e, w3)
      | (Returned, w3) \<Rightarrow> (Returned, w3\<lparr>isRestoringRef := False, initializedRef := True\<rparr>))"
  using assms by (simp add: restoreEffect_def Let_def)

lemma restoreRecord_parsed:
  assumes "JSON_parse P raw = Some parsed" and "destructure parsed = Inr (savedAt, values)"
  shows "restoreRecord P name cfg now raw w =
     (if isExpired P cfg now savedAt
      then clearStorage P name cfg
             (w\<lparr>trace := trace w @ (if onTimeout cfg then [OnTimeout] else [])\<rparr>)
      else (Returned,
            w\<lparr>lastValuesRef := values,
              trace := trace w @ fieldSets cfg values
                       @ (if onDataRestored cfg then [OnDataRestored values] else [])\<rparr>))"
  using assms by (simp add: restoreRecord_def)

lemma restoreEffect_restores:
  assumes "\<not> initializedRef w" and "\<not> isRestoringRef w"
    and "getItem (getStorage P cfg) (getStorageKey name) (store w) = (Inr (Some raw), st')"
    and "raw \<noteq> []"
    and "JSON_parse P raw = Some parsed" and "destructure parsed = Inr (savedAt, values)"
    and "\<not> isExpired P cfg now savedAt"
  shows "restoreEffect P name cfg now w =
     (Returned, w\<lparr>lastValuesRef := values, initializedRef := True, store := st',
        trace := trace w @ [GetItem (getStorageKey name)] @ fieldSets cfg values
                 @ (if onDataRestored cfg then [OnDataRestored values] else [])\<rparr>)"
  using assms(1,2,7)
  by (simp add: restoreEffect_found [OF assms(1-4)] restoreRecord_parsed [OF assms(5,6)])

lemma restoreEffect_expired_trace:
  assumes "\<not> initializedRef w" and "\<not> isRestoringRef w"
    and "getItem (getStorage P cfg) (getStorageKey name) (store w) = (Inr (Some raw), st')"
    and "raw \<noteq> []"
    and "JSON_parse P raw = Some parsed" and "destructure parsed = Inr (savedAt, values)"
    and "isExpired P cfg now savedAt"
  shows "trace (snd (restoreEffect P name cfg now w)) =
           trace w @ [GetItem (getStorageKey name)] @ (if onTimeout cfg then [OnTimeout] else [])
           @ [RemoveItem (getStorageKey name)]"
    and "lastValuesRef (snd (restoreEffect P name cfg now w)) = lastValuesRef w"
  using assms(7)
  by (simp_all add: restoreEffect_found [OF assms(1-4)] restoreRecord_parsed [OF assms(5,6)]
      clearStorage_def Let_def split: prod.splits sum.splits outcome.splits)

text \<open>
  C6: a restore that is not expired sets, with the three flags of the configuration, the
  fields of the parsed snapshot that are not in \<open>exclude\<close>, each once and in the order of
  the snapshot, and then calls \<open>onDataRestored\<close> (when it is supplied) once with the whole
  parsed snapshot, excluded fields included.
\<close>

theorem restore_sets_fields_not_excluded:
  assumes "\<not> initializedRef w" and "\<not> isRestoringRef w"
    and "getItem (getStorage P cfg) (getStorageKey name) (store w) = (Inr (Some raw), st')"
    and "raw \<noteq> []"
    and "JSON_parse P raw = Some parsed" and "destructure parsed = Inr (savedAt, values)"
    and "\<not> isExpired P cfg now savedAt"
  shows "restoreEffect P name cfg now w =
     (Returned, w\<lparr>lastValuesRef := values, initializedRef := True, store := st',
        trace := trace w @ [GetItem (getStorageKey name)]
          @ map (\<lambda>key. SetValue key (getProp values key) (validate cfg) (dirty cfg) (touch cfg))
                (filter (\<lambda>key. key \<notin> set (exclude cfg)) (Object_keys values))
          @ (if onDataRestored cfg then [OnDataRestored values] else [])\<rparr>)"
  using restoreEffect_restores [OF assms] by (simp add: fieldSets_def)

theorem restore_sets_fields_not_excluded_witness:
  "\<not> initializedRef (mount [(testKey, johnSecretText)])
   \<and> JSON_parse testHost johnSecretText = Some (JObj johnSecret)
   \<and> destructure (JObj johnSecret) = Inr (JNull, johnSecret)
   \<and> \<not> isExpired testHost excludePassword 3000 JNull
   \<and> trace (snd (restoreEffect testHost ''test-form-v1'' excludePassword 3000
         (mount [(testKey, johnSecretText)])))
       = [GetItem testKey,
          SetValue ''name'' (JStr ''John'') False False False,
          SetValue ''email'' (JStr ''john@example.com'') False False False,
          OnDataRestored johnSecret]"
  using restore_sets_fields_not_excluded
    [of "mount [(testKey, johnSecretText)]" testHost excludePassword "''test-form-v1''"
        johnSecretText "[(testKey, johnSecretText)]" "JObj johnSecret" JNull johnSecret 3000]
  by (simp add: mount_def testKey_def getStorageKey_def getStorage_def defaults_def
      testHost_def memoryStorage_def john_def johnText_def johnSecret_def johnSecretText_def
      excludePassword_def isExpired_def getProp_def Object_keys_def withDefaultNull_def)

lemma fieldSets_only_sets:
  "OnTimeout \<notin> set (fieldSets cfg values)" "RemoveItem key \<notin> set (fieldSets cfg values)"
  by (auto simp: fieldSets_def)

lemma restoreEffect_never_expired:
  assumes "\<And>savedAt. \<not> isExpired P cfg now savedAt"
  shows "\<exists>evs. trace (snd (restoreEffect P name cfg now w)) = trace w @ evs
            \<and> OnTimeout \<notin> set evs \<and> (\<forall>key. RemoveItem key \<notin> set evs)"
  using assms
  by (auto simp: restoreEffect_def restoreRecord_def Let_def fieldSets_only_sets
      split: prod.splits sum.splits option.splits outcome.splits)

lemma saveToStorage_trace:
  "trace (snd (saveToStorage P name cfg now watched w)) =
     (if \<not> isSavingRef w \<and> candidate cfg watched \<noteq> []
         \<and> valuesHaveChanged P w (candidate cfg watched)
      then trace w @ [SetItem (getStorageKey name)
                        (serialized P (stamped cfg now (candidate cfg watched)))]
      else trace w)"
proof (cases "\<not> isSavingRef w \<and> candidate cfg watched \<noteq> []
         \<and> valuesHaveChanged P w (candidate cfg watched)")
  case True
  obtain r st' where "setItem (getStorage P cfg) (getStorageKey name)
           (serialized P (stamped cfg now (candidate cfg watched))) (store w) = (r, st')"
    by (cases "setItem (getStorage P cfg) (getStorageKey name)
           (serialized P (stamped cfg now (candidate cfg watched))) (store w)")
  with True show ?thesis
    by (simp add: saveToStorage_write split: sum.splits)
next
  case False
  then show ?thesis
    by (cases "isSavingRef w") (auto simp: saveToStorage_busy saveToStorage_quiet)
qed

text \<open>
  C10: with \<open>timeout = 0\<close> the save and the restore disagree. Every save that writes
  stamps the record with \<open>_savedAt\<close> (line 136 tests \<open>timeout != null\<close>), but no restore
  takes the expiry branch (line 78 tests the truthiness of \<open>timeout\<close>): it never calls
  \<open>onTimeout\<close> or \<open>removeItem\<close>, and a record that parses is restored whatever its
  timestamp.
\<close>

theorem zero_timeout_stamps_and_never_expires:
  assumes "timeout cfg = Some 0"
  shows "trace (snd (saveToStorage P name cfg now watchedValues w)) =
           (if \<not> isSavingRef w \<and> candidate cfg watchedValues \<noteq> []
               \<and> valuesHaveChanged P w (candidate cfg watchedValues)
            then trace w @ [SetItem (getStorageKey name)
                   (serialized P (AList.update ''_savedAt'' (JNum now)
                                    (candidate cfg watchedValues)))]
            else trace w)
       \<and> (\<exists>evs. trace (snd (restoreEffect P name cfg now w)) = trace w @ evs
              \<and> OnTimeout \<notin> set evs \<and> (\<forall>key. RemoveItem key \<notin> set evs))
       \<and> (\<not> initializedRef w \<and> \<not> isRestoringRef w
            \<and> getItem (getStorage P cfg) (getStorageKey name) (store w) = (Inr (Some raw), st')
            \<and> raw \<noteq> [] \<and> JSON_parse P raw = Some parsed
            \<and> destructure parsed = Inr (savedAt, values) \<longrightarrow>
          trace (snd (restoreEffect P name cfg now w)) =
            trace w @ [GetItem (getStorageKey name)] @ fieldSets cfg values
            @ (if onDataRestored cfg then [OnDataRestored values] else []))"
proof -
  have never: "\<not> isExpired P cfg now s" for s
    using assms by (simp add: isExpired_def)
  have stamp: "stamped cfg now (candidate cfg watchedValues)
      = AList.update ''_savedAt'' (JNum now) (candidate cfg watchedValues)"
    using assms by (simp add: stamped_def)
  show ?thesis
    using saveToStorage_trace [of P name cfg now watchedValues w]
      restoreEffect_never_expired [of P cfg now name w, OF never]
      restoreEffect_restores [of w P cfg name "raw" "st'" parsed savedAt "values" now] never
    by (simp add: stamp)
qed

theorem zero_timeout_stamps_and_never_expires_witness:
  "timeout (expireAfter 0) = Some 0
   \<and> trace (snd (saveToStorage testHost ''test-form-v1'' (expireAfter 0) 3000 john (idle [])))
       = [SetItem testKey johnSavedAt3000]
   \<and> trace (snd (restoreEffect testHost ''test-form-v1'' (expireAfter 0) 3000
         (mount [(testKey, johnSavedAt3000)])))
       = [GetItem testKey,
          SetValue ''name'' (JStr ''John'') False False False,
          SetValue ''email'' (JStr ''john@example.com'') False False False]"
  using zero_timeout_stamps_and_never_expires
    [of "expireAfter 0" testHost "''test-form-v1''" 3000 john "idle []"]
   zero_timeout_stamps_and_never_expires
    [of "expireAfter 0" testHost "''test-form-v1''" 3000 john "mount [(testKey, johnSavedAt3000)]"
        johnSavedAt3000 "[(testKey, johnSavedAt3000)]" "JObj (johnSavedAt 3000)" "JNum 3000" john]
  by (simp add: mount_def idle_def testKey_def getStorageKey_def getStorage_def defaults_def
      testHost_def memoryStorage_def john_def johnText_def johnSecret_def johnSecretText_def
      johnSavedAt_def johnSavedAt3000_def johnSavedAt4000_def onlySavedAt_def expireAfter_def
      candidate_def valuesHaveChanged_iff Object_keys_def getProp_def withDefaultNull_def
      fieldSets_def serialized_def)

text \<open>
  C4, as stated, fails: with \<open>timeout = 1000\<close> a record that parses and has no
  \<open>_savedAt\<close> is, at time 5000, not restored but expired: \<open>onTimeout\<close> is called and
  the record is removed, since \<open>currTimestamp - null\<close> is \<open>currTimestamp\<close>.
\<close>

theorem record_without_timestamp_expires:
  "JSON_parse testHost johnText = Some (JObj john)
   \<and> map_of john ''_savedAt'' = None
   \<and> trace (snd (restoreEffect testHost ''test-form-v1'' (expireAfter 1000) 5000
         (mount [(testKey, johnText)])))
       = [GetItem testKey, OnTimeout, RemoveItem testKey]"
  by (simp add: restoreEffect_def restoreRecord_def clearStorage_def isExpired_def ToNumber_def
      Let_def mount_def testKey_def getStorageKey_def getStorage_def defaults_def
      testHost_def memoryStorage_def john_def johnText_def johnSecret_def johnSecretText_def
      johnSavedAt_def johnSavedAt3000_def johnSavedAt4000_def onlySavedAt_def expireAfter_def
      getProp_def withDefaultNull_def outcome_of_def)

text \<open>
  C4, amended: on restore with a timeout configured, the expiry branch (call \<open>onTimeout\<close>,
  remove the record, set no field) is taken exactly when the timeout is not 0 and
  \<open>now - savedAt\<close> exceeds it, where a record without \<open>_savedAt\<close> counts as saved at
  time 0; otherwise the record is restored. So a record without a timestamp is restored
  only while \<open>now\<close> does not exceed the timeout.
\<close>

theorem expiry_counts_missing_timestamp_as_zero:
  assumes "\<not> initializedRef w" and "\<not> isRestoringRef w"
    and "getItem (getStorage P cfg) (getStorageKey name) (store w) = (Inr (Some raw), st')"
    and "raw \<noteq> []"
    and "JSON_parse P raw = Some (JObj obj)"
    and "timeout cfg = Some t"
    and "map_of obj ''_savedAt'' = Some (JNum s) \<or> map_of obj ''_savedAt'' = None \<and> s = 0"
  shows "trace (snd (restoreEffect P name cfg now w)) =
           trace w @ [GetItem (getStorageKey name)]
           @ (if t \<noteq> 0 \<and> now - s > t
              then (if onTimeout cfg then [OnTimeout] else []) @ [RemoveItem (getStorageKey name)]
              else fieldSets cfg (filter (\<lambda>(key, val). key \<noteq> ''_savedAt'') obj)
                   @ (if onDataRestored cfg
                      then [OnDataRestored (filter (\<lambda>(key, val). key \<noteq> ''_savedAt'') obj)]
                      else []))"
proof -
  let ?savedAt = "withDefaultNull (getProp obj ''_savedAt'')"
  let ?fields = "filter (\<lambda>(key, val). key \<noteq> ''_savedAt'') obj"
  have d: "destructure (JObj obj) = Inr (?savedAt, ?fields)"
    by simp
  have "ToNumber P ?savedAt = Some s"
    using assms(7) by (auto simp: ToNumber_def getProp_def withDefaultNull_def)
  then have e: "isExpired P cfg now ?savedAt \<longleftrightarrow> t \<noteq> 0 \<and> now - s > t"
    using assms(6) by (simp add: isExpired_def)
  show ?thesis
  proof (cases "isExpired P cfg now ?savedAt")
    case True
    then have c: "t \<noteq> 0 \<and> now - s > t"
      using e by simp
    show ?thesis
      unfolding if_P [OF c] using restoreEffect_expired_trace(1) [OF assms(1-5) d True] by simp
  next
    case False
    then have c: "\<not> (t \<noteq> 0 \<and> now - s > t)"
      using e by simp
    show ?thesis
      unfolding if_not_P [OF c] using restoreEffect_restores [OF assms(1-5) d False] by simp
  qed
qed

theorem expiry_counts_missing_timestamp_as_zero_witness:
  "JSON_parse testHost johnSavedAt3000 = Some (JObj (johnSavedAt 3000))
   \<and> timeout (expireAfter 1000) = Some 1000
   \<and> map_of (johnSavedAt 3000) ''_savedAt'' = Some (JNum 3000)
   \<and> trace (snd (restoreEffect testHost ''test-form-v1'' (expireAfter 1000) 5000
         (mount [(testKey, johnSavedAt3000)])))
       = [GetItem testKey, OnTimeout, RemoveItem testKey]
   \<and> trace (snd (restoreEffect testHost ''test-form-v1'' (expireAfter 1000) 3500
         (mount [(testKey, johnSavedAt3000)])))
       = [GetItem testKey,
          SetValue ''name'' (JStr ''John'') False False False,
          SetValue ''email'' (JStr ''john@example.com'') False False False]
   \<and> map_of john ''_savedAt'' = None
   \<and> trace (snd (restoreEffect testHost ''test-form-v1'' (expireAfter 1000) 700
         (mount [(testKey, johnText)])))
       = [GetItem testKey,
          SetValue ''name'' (JStr ''John'') False False False,
          SetValue ''email'' (JStr ''john@example.com'') False False False]"
  using expiry_counts_missing_timestamp_as_zero
    [of "mount [(testKey, johnSavedAt3000)]" testHost "expireAfter 1000" "''test-form-v1''"
        johnSavedAt3000 "[(testKey, johnSavedAt3000)]" "johnSavedAt 3000" 1000 3000 5000]
   expiry_counts_missing_timestamp_as_zero
    [of "mount [(testKey, johnText)]" testHost "expireAfter 1000" "''test-form-v1''"
        johnText "[(testKey, johnText)]" john 1000 0 700]
   expiry_counts_missing_timestamp_as_zero
    [of "mount [(testKey, johnSavedAt3000)]" testHost "expireAfter 1000" "''test-form-v1''"
        johnSavedAt3000 "[(testKey, johnSavedAt3000)]" "johnSavedAt 3000" 1000 3000 3500]
  by (simp add: mount_def testKey_def getStorageKey_def getStorage_def defaults_def
      testHost_def memoryStorage_def john_def johnText_def johnSecret_def johnSecretText_def
      johnSavedAt_def johnSavedAt3000_def johnSavedAt4000_def onlySavedAt_def expireAfter_def
      fieldSets_def Object_keys_def getProp_def)

text \<open>
  C1, as stated, fails: for a stored text that \<open>JSON.parse\<close> rejects the effect has no
  handler; the SyntaxError reaches the caller and the two assignments that end the
  restore are not run.
\<close>

theorem malformed_record_is_not_swallowed:
  "JSON_parse testHost truncated = None
   \<and> restoreEffect testHost ''test-form-v1'' defaults 5000 (mount [(testKey, truncated)])
       = (Threw SyntaxError,
          (mount [(testKey, truncated)])\<lparr>isRestoringRef := True, trace := [GetItem testKey]\<rparr>)
   \<and> \<not> initializedRef (snd (restoreEffect testHost ''test-form-v1'' defaults 5000
           (mount [(testKey, truncated)])))"
  by (simp add: restoreEffect_def restoreRecord_def truncated_def
      Let_def mount_def testKey_def getStorageKey_def getStorage_def defaults_def
      testHost_def memoryStorage_def john_def johnText_def johnSecret_def johnSecretText_def
      johnSavedAt_def johnSavedAt3000_def johnSavedAt4000_def onlySavedAt_def)

text \<open>
  C1, amended: for every stored text that is not empty and does not parse, initializing
  the binding makes no call after \<open>getItem\<close> (no field is set), the SyntaxError of
  \<open>JSON.parse\<close> surfaces to the caller, and the restore does not complete: the binding
  stays restoring and not initialized.
\<close>

theorem malformed_record_raises_and_sets_no_field:
  assumes "\<not> initializedRef w" and "\<not> isRestoringRef w"
    and "getItem (getStorage P cfg) (getStorageKey name) (store w) = (Inr (Some raw), st')"
    and "raw \<noteq> []"
    and "JSON_parse P raw = None"
  shows "restoreEffect P name cfg now w =
           (Threw SyntaxError,
            w\<lparr>isRestoringRef := True, store := st',
               trace := trace w @ [GetItem (getStorageKey name)]\<rparr>)"
  by (simp add: restoreEffect_found [OF assms(1-4)] restoreRecord_def assms(5))

theorem malformed_record_raises_and_sets_no_field_witness:
  "\<not> initializedRef (mount [(testKey, ''oops'')])
   \<and> JSON_parse testHost ''oops'' = None
   \<and> fst (restoreEffect testHost ''test-form-v1'' excludePassword 5000 (mount [(testKey, ''oops'')]))
       = Threw SyntaxError
   \<and> trace (snd (restoreEffect testHost ''test-form-v1'' excludePassword 5000
         (mount [(testKey, ''oops'')]))) = [GetItem testKey]
   \<and> isRestoringRef (snd (restoreEffect testHost ''test-form-v1'' excludePassword 5000
         (mount [(testKey, ''oops'')])))"
  using malformed_record_raises_and_sets_no_field
    [of "mount [(testKey, ''oops'')]" testHost excludePassword "''test-form-v1''" "''oops''"
        "[(testKey, ''oops'')]" 5000]
  by (simp add: mount_def testKey_def getStorageKey_def getStorage_def defaults_def
      testHost_def memoryStorage_def john_def johnText_def johnSecret_def johnSecretText_def
      johnSavedAt_def johnSavedAt3000_def johnSavedAt4000_def onlySavedAt_def excludePassword_def)

section \<open>Exceptions in the save\<close>

lemma changeSettled_skipped:
  assumes "shouldSkipSave w"
  shows "trace (snd (changeSettled P name cfg now watched w)) = trace w
       \<and> store (snd (changeSettled P name cfg now watched w)) = store w
       \<and> lastValuesRef (snd (changeSettled P name cfg now watched w)) = lastValuesRef w"
proof (cases "debounceDelay cfg > 0")
  case True
  define w1 where "w1 = (cancelPending w)\<lparr>debounceTimeoutRef := Some (nextTimer (cancelPending w)),
      timers := (timers (cancelPending w))(nextTimer (cancelPending w) \<mapsto> watched),
      nextTimer := nextTimer (cancelPending w) + 1\<rparr>"
  have eff: "saveEffect P name cfg now watched w = (Returned, w1)"
    using True by (simp add: saveEffect_def Let_def w1_def)
  have pending: "timers w1 (nextTimer w) = Some watched"
    by (simp add: w1_def)
  have skip: "shouldSkipSave (clearTimeout (nextTimer w) w1)"
    using assms by (simp add: shouldSkipSave_def clearTimeout_def w1_def)
  have fire: "timerFires P name cfg (now + debounceDelay cfg) (nextTimer w) w1
                = (Returned, clearTimeout (nextTimer w) w1)"
    unfolding timerFires_pending [OF pending] using skip by simp
  have ref: "debounceTimeoutRef w1 = Some (nextTimer w)"
    by (simp add: w1_def)
  have "changeSettled P name cfg now watched w = (Returned, clearTimeout (nextTimer w) w1)"
    unfolding changeSettled_def eff using True ref fire by simp
  then show ?thesis
    by (simp add: w1_def clearTimeout_def)
next
  case False
  then have "changeSettled P name cfg now watched w = (Returned, cancelPending w)"
    using assms by (simp add: changeSettled_def saveEffect_def Let_def)
  then show ?thesis by simp
qed

text \<open>
  When \<open>setItem\<close> raises in a debounced save, the exception leaves the timer callback of
  line 151 and the binding lives on. In a save that is not debounced it leaves the effect
  itself; what the host does with the binding then is not part of the hook, and nothing
  is stated about later changes in that case.
\<close>




section \<open>Saving twice, and saving then restoring\<close>

lemma changeSettled_runs:
  assumes "\<not> shouldSkipSave w"
  shows "\<exists>t wt. changeSettled P name cfg now watched w = saveToStorage P name cfg t watched wt
           \<and> trace wt = trace w \<and> store wt = store w \<and> lastValuesRef wt = lastValuesRef w
           \<and> isSavingRef wt = isSavingRef w"
proof (cases "debounceDelay cfg > 0")
  case True
  define w1 where "w1 = (cancelPending w)\<lparr>debounceTimeoutRef := Some (nextTimer (cancelPending w)),
      timers := (timers (cancelPending w))(nextTimer (cancelPending w) \<mapsto> watched),
      nextTimer := nextTimer (cancelPending w) + 1\<rparr>"
  define w2 where "w2 = clearTimeout (nextTimer w) w1"
  have eff: "saveEffect P name cfg now watched w = (Returned, w1)"
    using True by (simp add: saveEffect_def Let_def w1_def)
  have pending: "timers w1 (nextTimer w) = Some watched"
    by (simp add: w1_def)
  have run: "\<not> shouldSkipSave w2"
    using assms by (simp add: shouldSkipSave_def clearTimeout_def w1_def w2_def)
  have fire: "timerFires P name cfg (now + debounceDelay cfg) (nextTimer w) w1
                = saveToStorage P name cfg (now + debounceDelay cfg) watched w2"
    unfolding timerFires_pending [OF pending] w2_def [symmetric] using run by simp
  have ref: "debounceTimeoutRef w1 = Some (nextTimer w)"
    by (simp add: w1_def)
  have "changeSettled P name cfg now watched w
          = saveToStorage P name cfg (now + debounceDelay cfg) watched w2"
    unfolding changeSettled_def eff using True ref fire
    by (simp split: prod.splits outcome.splits)
  moreover have "trace w2 = trace w \<and> store w2 = store w \<and> lastValuesRef w2 = lastValuesRef w
      \<and> isSavingRef w2 = isSavingRef w"
    by (simp add: w2_def w1_def clearTimeout_def)
  ultimately show ?thesis by blast
next
  case False
  then have "changeSettled P name cfg now watched w
               = saveToStorage P name cfg now watched (cancelPending w)"
    using assms by (simp add: changeSettled_def saveEffect_def Let_def split: prod.splits outcome.splits)
  moreover have "trace (cancelPending w) = trace w \<and> store (cancelPending w) = store w
      \<and> lastValuesRef (cancelPending w) = lastValuesRef w
      \<and> isSavingRef (cancelPending w) = isSavingRef w"
    by simp
  ultimately show ?thesis by blast
qed

lemma changeSettled_skipped_flags:
  assumes "shouldSkipSave w"
  shows "shouldSkipSave (snd (changeSettled P name cfg now watched w))"
proof (cases "debounceDelay cfg > 0")
  case True
  define w1 where "w1 = (cancelPending w)\<lparr>debounceTimeoutRef := Some (nextTimer (cancelPending w)),
      timers := (timers (cancelPending w))(nextTimer (cancelPending w) \<mapsto> watched),
      nextTimer := nextTimer (cancelPending w) + 1\<rparr>"
  have eff: "saveEffect P name cfg now watched w = (Returned, w1)"
    using True by (simp add: saveEffect_def Let_def w1_def)
  have pending: "timers w1 (nextTimer w) = Some watched"
    by (simp add: w1_def)
  have skip: "shouldSkipSave (clearTimeout (nextTimer w) w1)"
    using assms by (simp add: shouldSkipSave_def clearTimeout_def w1_def)
  have fire: "timerFires P name cfg (now + debounceDelay cfg) (nextTimer w) w1
                = (Returned, clearTimeout (nextTimer w) w1)"
    unfolding timerFires_pending [OF pending] using skip by simp
  have ref: "debounceTimeoutRef w1 = Some (nextTimer w)"
    by (simp add: w1_def)
  have "changeSettled P name cfg now watched w = (Returned, clearTimeout (nextTimer w) w1)"
    unfolding changeSettled_def eff using True ref fire by simp
  then show ?thesis
    using skip by simp
next
  case False
  then have "changeSettled P name cfg now watched w = (Returned, cancelPending w)"
    using assms by (simp add: changeSettled_def saveEffect_def Let_def)
  then show ?thesis using assms by simp
qed

text \<open>
  Without a timeout the change detector does its work: the same watched values, saved
  a second time, are not written again.
\<close>

lemma unchanged_snapshot_is_not_rewritten:
  assumes "timeout cfg = None"
  shows "trace (snd (changeSettled P name cfg now' watched
                  (snd (changeSettled P name cfg now watched w))))
         = trace (snd (changeSettled P name cfg now watched w))"
proof -
  let ?w1 = "snd (changeSettled P name cfg now watched w)"
  let ?c = "candidate cfg watched"
  show ?thesis
  proof (cases "shouldSkipSave w")
    case True
    then have "shouldSkipSave ?w1" by (rule changeSettled_skipped_flags)
    then show ?thesis using changeSettled_skipped by blast
  next
    case run: False
    show ?thesis
    proof (cases "?c = [] \<or> \<not> valuesHaveChanged P w ?c")
      case True
      then have "lastValuesRef ?w1 = lastValuesRef w"
        using changeSettled_quiet [of cfg watched P w name now] by simp
      then have "?c = [] \<or> \<not> valuesHaveChanged P ?w1 ?c"
        using True valuesHaveChanged_frame by blast
      then show ?thesis
        using changeSettled_quiet [of cfg watched P ?w1 name now'] by simp
    next
      case False
      obtain t wt where wt: "changeSettled P name cfg now watched w
             = saveToStorage P name cfg t watched wt"
          "store wt = store w" "lastValuesRef wt = lastValuesRef w" "isSavingRef wt = isSavingRef w"
        using changeSettled_runs [OF run, of P name cfg now watched] by blast
      have idle: "\<not> isSavingRef wt"
        using run wt(4) by (simp add: shouldSkipSave_def)
      have changed: "?c \<noteq> []" "valuesHaveChanged P wt ?c"
        using False valuesHaveChanged_frame [OF wt(3)] by auto
      obtain r st' where set: "setItem (getStorage P cfg) (getStorageKey name)
           (serialized P (stamped cfg t ?c)) (store wt) = (r, st')"
        by (cases "setItem (getStorage P cfg) (getStorageKey name)
           (serialized P (stamped cfg t ?c)) (store wt)")
      show ?thesis
      proof (cases r)
        case (Inl e)
        then have "isSavingRef ?w1"
          using saveToStorage_write [OF idle changed set] wt(1) by simp
        then have "shouldSkipSave ?w1" by (simp add: shouldSkipSave_def)
        then show ?thesis using changeSettled_skipped by blast
      next
        case (Inr u)
        then have "lastValuesRef ?w1 = stamped cfg t ?c"
          using saveToStorage_write [OF idle changed set] wt(1) by simp
        then have "lastValuesRef ?w1 = ?c"
          using assms by (simp add: stamped_def)
        then have "\<not> valuesHaveChanged P ?w1 ?c"
          by (rule valuesHaveChanged_same)
        then show ?thesis
          using changeSettled_quiet [of cfg watched P ?w1 name now'] by simp
      qed
    qed
  qed
qed

text \<open>
  C2 at a failing input: with \<open>timeout = 1000\<close> the first save stores the stamped copy,
  \<open>_savedAt\<close> included, in \<open>lastValuesRef\<close> (line 140). The same watched values never
  have that key, so the change detector reports a change and they are written again.
\<close>

theorem same_snapshot_is_written_twice_with_timeout:
  "lastValuesRef (snd (changeSettled testHost ''test-form-v1'' (expireAfter 1000) 3000 john (idle [])))
     = john @ [(''_savedAt'', JNum 3000)]
   \<and> writes (trace (snd (changeSettled testHost ''test-form-v1'' (expireAfter 1000) 4000 john
        (snd (changeSettled testHost ''test-form-v1'' (expireAfter 1000) 3000 john (idle []))))))
     = [SetItem testKey johnSavedAt3000, SetItem testKey johnSavedAt4000]"
  by (simp add: saveToStorage_def changeSettled_def saveEffect_def cancelPending_def
      shouldSkipSave_def candidate_def stamped_def serialized_def valuesHaveChanged_iff
      Object_keys_def getProp_def Let_def writes_def
      expireAfter_def memoryStorage_def mount_def idle_def testKey_def getStorageKey_def
      getStorage_def defaults_def testHost_def john_def johnText_def johnSecret_def
      johnSavedAt_def johnSavedAt3000_def johnSavedAt4000_def johnSecretText_def)

text \<open>
  Without a timeout the documented edge case holds: a change that was saved, then
  \<open>clear()\<close>, then the same watched values again, and nothing is written after the
  removal.
\<close>

lemma cleared_snapshot_is_not_rewritten:
  assumes "timeout cfg = None"
    and "fst (changeSettled P name cfg now watched w) = Returned"
  shows "trace (snd (changeSettled P name cfg now' watched
                  (snd (clearStorage P name cfg (snd (changeSettled P name cfg now watched w))))))
         = trace (snd (changeSettled P name cfg now watched w)) @ [RemoveItem (getStorageKey name)]"
proof -
  let ?w1 = "snd (changeSettled P name cfg now watched w)"
  let ?w2 = "snd (clearStorage P name cfg ?w1)"
  let ?c = "candidate cfg watched"
  have kept: "lastValuesRef ?w2 = lastValuesRef ?w1" "shouldSkipSave ?w2 = shouldSkipSave ?w1"
    by (simp_all add: clearStorage_frame shouldSkipSave_def)
  have "shouldSkipSave ?w1 \<or> ?c = [] \<or> \<not> valuesHaveChanged P ?w1 ?c"
  proof (cases "shouldSkipSave w")
    case True
    then show ?thesis using changeSettled_skipped_flags by blast
  next
    case run: False
    show ?thesis
    proof (cases "?c = [] \<or> \<not> valuesHaveChanged P w ?c")
      case True
      then have "lastValuesRef ?w1 = lastValuesRef w"
        using changeSettled_quiet [of cfg watched P w name now] by simp
      then show ?thesis
        using True valuesHaveChanged_frame by blast
    next
      case False
      obtain t wt where wt: "changeSettled P name cfg now watched w
             = saveToStorage P name cfg t watched wt"
          "store wt = store w" "lastValuesRef wt = lastValuesRef w" "isSavingRef wt = isSavingRef w"
        using changeSettled_runs [OF run, of P name cfg now watched] by blast
      have idle: "\<not> isSavingRef wt"
        using run wt(4) by (simp add: shouldSkipSave_def)
      have changed: "?c \<noteq> []" "valuesHaveChanged P wt ?c"
        using False valuesHaveChanged_frame [OF wt(3)] by auto
      obtain r st' where set: "setItem (getStorage P cfg) (getStorageKey name)
           (serialized P (stamped cfg t ?c)) (store wt) = (r, st')"
        by (cases "setItem (getStorage P cfg) (getStorageKey name)
           (serialized P (stamped cfg t ?c)) (store wt)")
      show ?thesis
      proof (cases r)
        case (Inl e)
        then have "fst (changeSettled P name cfg now watched w) = Threw e"
          using saveToStorage_write [OF idle changed set] wt(1) by simp
        with assms(2) show ?thesis by simp
      next
        case (Inr u)
        then have "lastValuesRef ?w1 = stamped cfg t ?c"
          using saveToStorage_write [OF idle changed set] wt(1) by simp
        then have "lastValuesRef ?w1 = ?c"
          using assms(1) by (simp add: stamped_def)
        then show ?thesis
          using valuesHaveChanged_same by blast
      qed
    qed
  qed
  then have "shouldSkipSave ?w2 \<or> ?c = [] \<or> \<not> valuesHaveChanged P ?w2 ?c"
    using kept valuesHaveChanged_frame [OF kept(1)] by simp
  then have "trace (snd (changeSettled P name cfg now' watched ?w2)) = trace ?w2"
    using changeSettled_skipped [of ?w2 P name cfg now' watched]
      changeSettled_quiet [of cfg watched P ?w2 name now'] by blast
  then show ?thesis
    by (simp add: clearStorage_frame)
qed

text \<open>
  C7 at a failing input: with \<open>timeout = 1000\<close>, after a save \<open>clear()\<close> does what the
  claim says (one \<open>removeItem\<close> at the key, the record gone from the adapter,
  \<open>lastValuesRef\<close> and the flags as they were), but the change that follows with the
  values last saved is written again: \<open>lastValuesRef\<close> holds the stamped copy, which
  the watched values never equal.
\<close>

theorem cleared_snapshot_is_written_again_with_timeout:
  "trace (snd (changeSettled testHost ''test-form-v1'' (expireAfter 1000) 3000 john (idle [])))
     = [SetItem testKey johnSavedAt3000]
   \<and> clearStorage testHost ''test-form-v1'' (expireAfter 1000)
        (snd (changeSettled testHost ''test-form-v1'' (expireAfter 1000) 3000 john (idle [])))
     = (Returned,
        (snd (changeSettled testHost ''test-form-v1'' (expireAfter 1000) 3000 john (idle [])))
          \<lparr>store := [], trace := [SetItem testKey johnSavedAt3000, RemoveItem testKey]\<rparr>)
   \<and> trace (snd (changeSettled testHost ''test-form-v1'' (expireAfter 1000) 4000 john
        (snd (clearStorage testHost ''test-form-v1'' (expireAfter 1000)
          (snd (changeSettled testHost ''test-form-v1'' (expireAfter 1000) 3000 john (idle [])))))))
     = [SetItem testKey johnSavedAt3000, RemoveItem testKey, SetItem testKey johnSavedAt4000]"
  by (simp add: saveToStorage_def changeSettled_def saveEffect_def cancelPending_def
      clearStorage_def outcome_of_def
      shouldSkipSave_def candidate_def stamped_def serialized_def valuesHaveChanged_iff
      Object_keys_def getProp_def Let_def
      expireAfter_def memoryStorage_def mount_def idle_def testKey_def getStorageKey_def
      getStorage_def defaults_def testHost_def john_def johnText_def johnSecret_def
      johnSavedAt_def johnSavedAt3000_def johnSavedAt4000_def johnSecretText_def)

lemma getProp_of_field:
  assumes "distinct (map fst S)" and "(key, val) \<in> set S"
  shows "getProp S key = val"
  using assms by (simp add: getProp_def)

lemma fieldSets_all:
  assumes "distinct (map fst S)" and "exclude cfg = []"
  shows "fieldSets cfg S
         = map (\<lambda>(key, val). SetValue key val (validate cfg) (dirty cfg) (touch cfg)) S"
proof -
  have "map (\<lambda>key. SetValue key (getProp S key) (validate cfg) (dirty cfg) (touch cfg)) (map fst S)
        = map (\<lambda>(key, val). SetValue key val (validate cfg) (dirty cfg) (touch cfg)) S"
    unfolding map_map
  proof (rule map_cong [OF refl])
    fix x assume "x \<in> set S"
    then have "getProp S (fst x) = snd x"
      using getProp_of_field [OF assms(1), of "fst x" "snd x"] by simp
    then show "((\<lambda>key. SetValue key (getProp S key) (validate cfg) (dirty cfg) (touch cfg)) \<circ> fst) x
        = (case x of (key, val) \<Rightarrow> SetValue key val (validate cfg) (dirty cfg) (touch cfg))"
      by (simp add: case_prod_unfold)
  qed
  then show ?thesis
    using assms(2) by (simp add: fieldSets_def Object_keys_def)
qed

lemma without_savedAt:
  "''_savedAt'' \<notin> fst ` set S \<Longrightarrow> filter (\<lambda>(key, val). key \<noteq> ''_savedAt'') S = S"
  by (induction S) auto

lemma getProp_absent:
  "key \<notin> fst ` set S \<Longrightarrow> getProp S key = JUndefined"
  using map_of_eq_None_iff [of S key] by (simp add: getProp_def)

text \<open>
  C8, amended: let \<open>S\<close> be a snapshot that is not empty, has no field named \<open>_savedAt\<close>
  and is JSON-serializable (the host's \<open>JSON.parse\<close> gives \<open>S\<close> back from the text that
  \<open>JSON.stringify\<close> makes of it). Saving \<open>S\<close> with no exclusion and no timeout, on an
  adapter that returns what was written, and then restoring in a fresh binding with the
  same storage key sets the fields of \<open>S\<close>, value for value and in order.
\<close>

theorem saved_snapshot_is_restored:
  assumes "JSON_stringify P (JObj S) = Some text" and "text \<noteq> []"
    and "JSON_parse P text = Some (JObj S)"
    and "S \<noteq> []" and "distinct (map fst S)" and "''_savedAt'' \<notin> fst ` set S"
    and "exclude cfg = []" and "timeout cfg = None"
    and "\<not> shouldSkipSave w" and "valuesHaveChanged P w S"
    and "setItem (getStorage P cfg) (getStorageKey name) text (store w) = (Inr (), st1)"
    and "getItem (getStorage P cfg) (getStorageKey name) st1 = (Inr (Some text), st2)"
  shows "trace (snd (changeSettled P name cfg now S w))
           = trace w @ [SetItem (getStorageKey name) text]
       \<and> store (snd (changeSettled P name cfg now S w)) = st1
       \<and> trace (snd (restoreEffect P name cfg now'
                  (mount (store (snd (changeSettled P name cfg now S w))))))
           = [GetItem (getStorageKey name)]
             @ map (\<lambda>(key, val). SetValue key val (validate cfg) (dirty cfg) (touch cfg)) S
             @ (if onDataRestored cfg then [OnDataRestored S] else [])"
proof -
  have cand: "candidate cfg S = S"
    using assms(7) by (simp add: candidate_def)
  have written: "serialized P (stamped cfg t (candidate cfg S)) = text" for t
    using assms(1,8) by (simp add: cand stamped_def serialized_def)
  obtain t wt where wt: "changeSettled P name cfg now S w = saveToStorage P name cfg t S wt"
      "trace wt = trace w" "store wt = store w" "lastValuesRef wt = lastValuesRef w"
      "isSavingRef wt = isSavingRef w"
    using changeSettled_runs [OF assms(9), of P name cfg now S] by blast
  have idle: "\<not> isSavingRef wt"
    using assms(9) wt(5) by (simp add: shouldSkipSave_def)
  have changed: "candidate cfg S \<noteq> []" "valuesHaveChanged P wt (candidate cfg S)"
    using assms(4,10) valuesHaveChanged_frame [OF wt(4)] by (simp_all add: cand)
  have set: "setItem (getStorage P cfg) (getStorageKey name)
           (serialized P (stamped cfg t (candidate cfg S))) (store wt) = (Inr (), st1)"
    using assms(11) by (simp add: written wt(3))
  have saved: "trace (snd (changeSettled P name cfg now S w))
                 = trace w @ [SetItem (getStorageKey name) text]"
      "store (snd (changeSettled P name cfg now S w)) = st1"
    using saveToStorage_write [OF idle changed set] by (simp_all add: wt(1,2) written)
  have fresh: "\<not> initializedRef (mount st1)" "\<not> isRestoringRef (mount st1)"
      "getItem (getStorage P cfg) (getStorageKey name) (store (mount st1)) = (Inr (Some text), st2)"
    using assms(12) by (simp_all add: mount_def)
  have d: "destructure (JObj S) = Inr (JNull, S)"
    using assms(6) by (simp add: without_savedAt getProp_absent withDefaultNull_def)
  have e: "\<not> isExpired P cfg now' JNull"
    using assms(8) by (simp add: isExpired_def)
  have "trace (snd (restoreEffect P name cfg now' (mount st1)))
          = [GetItem (getStorageKey name)] @ fieldSets cfg S
            @ (if onDataRestored cfg then [OnDataRestored S] else [])"
    using restoreEffect_restores [OF fresh assms(2,3) d e] by (simp add: mount_def)
  then show ?thesis
    using saved by (simp add: fieldSets_all [OF assms(5,7)])
qed

text \<open>
  C8, as stated, fails for a snapshot that uses the reserved key: the form
  \<open>{_savedAt: 5}\<close> is JSON-serializable and is written as it is, but the restore takes
  \<open>_savedAt\<close> for the timestamp of the record (line 75) and sets no field.
\<close>

theorem reserved_field_is_not_restored:
  "JSON_stringify testHost (JObj [(''_savedAt'', JNum 5)]) = Some onlySavedAt
   \<and> JSON_parse testHost onlySavedAt = Some (JObj [(''_savedAt'', JNum 5)])
   \<and> trace (snd (changeSettled testHost ''test-form-v1'' defaults 3000 [(''_savedAt'', JNum 5)] (idle [])))
       = [SetItem testKey onlySavedAt]
   \<and> trace (snd (restoreEffect testHost ''test-form-v1'' defaults 4000
         (mount (store (snd (changeSettled testHost ''test-form-v1'' defaults 3000
                   [(''_savedAt'', JNum 5)] (idle []))))))) = [GetItem testKey]"
  by (simp add: saveToStorage_def changeSettled_def saveEffect_def cancelPending_def
      shouldSkipSave_def candidate_def stamped_def serialized_def valuesHaveChanged_iff
      restoreEffect_def restoreRecord_def isExpired_def fieldSets_def withDefaultNull_def
      Object_keys_def getProp_def Let_def
      memoryStorage_def mount_def idle_def testKey_def getStorageKey_def
      getStorage_def defaults_def testHost_def john_def johnText_def johnSecret_def
      johnSavedAt_def johnSavedAt3000_def johnSavedAt4000_def johnSecretText_def onlySavedAt_def)

theorem saved_snapshot_is_restored_witness:
  "JSON_stringify testHost (JObj john) = Some johnText \<and> johnText \<noteq> []
   \<and> JSON_parse testHost johnText = Some (JObj john)
   \<and> distinct (map fst john) \<and> ''_savedAt'' \<notin> fst ` set john
   \<and> \<not> shouldSkipSave (idle [] :: (string \<times> string) list world)
   \<and> valuesHaveChanged testHost (idle []) john
   \<and> trace (snd (changeSettled testHost ''test-form-v1'' defaults 3000 john (idle [])))
       = [SetItem testKey johnText]
   \<and> trace (snd (restoreEffect testHost ''test-form-v1'' defaults 4000
         (mount (store (snd (changeSettled testHost ''test-form-v1'' defaults 3000 john (idle [])))))))
       = [GetItem testKey,
          SetValue ''name'' (JStr ''John'') False False False,
          SetValue ''email'' (JStr ''john@example.com'') False False False]"
proof -
  have codec: "JSON_stringify testHost (JObj john) = Some johnText" "johnText \<noteq> []"
      "JSON_parse testHost johnText = Some (JObj john)"
    by (simp_all add: testHost_def john_def johnText_def)
  have snapshot: "john \<noteq> []" "distinct (map fst john)" "''_savedAt'' \<notin> fst ` set john"
    by (simp_all add: john_def)
  have plain: "exclude (defaults :: (string \<times> string) list config) = []"
      "timeout (defaults :: (string \<times> string) list config) = None"
    by (simp_all add: defaults_def)
  have ready: "\<not> shouldSkipSave (idle [] :: (string \<times> string) list world)"
      "valuesHaveChanged testHost (idle []) john"
    by (simp_all add: shouldSkipSave_def valuesHaveChanged_iff Object_keys_def idle_def mount_def
        john_def)
  have adapter:
      "setItem (getStorage testHost defaults) (getStorageKey ''test-form-v1'') johnText
         (store (idle [])) = (Inr (), [(testKey, johnText)])"
      "getItem (getStorage testHost defaults) (getStorageKey ''test-form-v1'')
         [(testKey, johnText)] = (Inr (Some johnText), [(testKey, johnText)])"
    by (simp_all add: getStorage_def defaults_def testHost_def memoryStorage_def idle_def
        mount_def testKey_def getStorageKey_def)
  note roundtrip = saved_snapshot_is_restored [OF codec snapshot plain ready adapter, of 3000 4000]
  have saved: "trace (snd (changeSettled testHost ''test-form-v1'' defaults 3000 john (idle [])))
       = [SetItem testKey johnText]"
    unfolding roundtrip [THEN conjunct1]
    by (simp add: idle_def mount_def testKey_def getStorageKey_def)
  have restored: "trace (snd (restoreEffect testHost ''test-form-v1'' defaults 4000
         (mount (store (snd (changeSettled testHost ''test-form-v1'' defaults 3000 john (idle [])))))))
       = [GetItem testKey,
          SetValue ''name'' (JStr ''John'') False False False,
          SetValue ''email'' (JStr ''john@example.com'') False False False]"
    unfolding roundtrip [THEN conjunct2, THEN conjunct2]
    by (simp add: john_def defaults_def testKey_def getStorageKey_def)
  show ?thesis
    using codec snapshot ready saved restored by blast
qed

end
